theory Spec2Isabelle
  imports Complex_Main
begin

section \<open>JavaScript values reaching the controllers\<close>

text \<open>
  The value a remote call resolves with is decoded JSON, or \<open>undefined\<close>.
  \<open>JNum\<close> carries an integral Number (the record count of the server procedure);
  its decimal rendering below is the one of JavaScript for safe integers
  (magnitude at most \<open>2^53 - 1\<close>). Fractional Number results are not part of the
  embedding. \<open>JStr\<close> carries the code units of a string, each below 256.
  \<open>JObj\<close> lists the own properties of a plain object, \<open>JArr\<close> the elements
  of an array.
\<close>

datatype jsval =
    JUndefined
  | JNull
  | JBool bool
  | JNum int
  | JStr string
  | JArr "jsval list"
  | JObj "(string \<times> jsval) list"

datatype error = TypeError | Rejected string

text \<open>\<open>ToBoolean\<close>: what \<open>if (v)\<close> and \<open>v && ...\<close> test.\<close>

fun ToBoolean :: "jsval \<Rightarrow> bool" where
  "ToBoolean JUndefined = False"
| "ToBoolean JNull = False"
| "ToBoolean (JBool b) = b"
| "ToBoolean (JNum n) = (n \<noteq> 0)"
| "ToBoolean (JStr s) = (s \<noteq> [])"
| "ToBoolean (JArr xs) = True"
| "ToBoolean (JObj kvs) = True"

text \<open>
  The member access \<open>v.type\<close>. It throws on \<open>undefined\<close> and \<open>null\<close>; a plain
  object yields its own property or \<open>undefined\<close>; no built-in prototype
  (Object, Array, String, Number, Boolean) has a property of that name.
\<close>

fun get_type :: "jsval \<Rightarrow> error + jsval" where
  "get_type JUndefined = Inl TypeError"
| "get_type JNull = Inl TypeError"
| "get_type (JObj kvs) = (case map_of kvs ''type'' of None \<Rightarrow> Inr JUndefined | Some v \<Rightarrow> Inr v)"
| "get_type v = Inr JUndefined"

text \<open>The value of \<open>v && v.type\<close>: the right operand is evaluated only for a truthy left one.\<close>

definition and_type :: "jsval \<Rightarrow> error + jsval" where
  "and_type v = (if ToBoolean v then get_type v else Inr v)"

subsection \<open>Conversion to strings\<close>

fun decimal_digits :: "nat \<Rightarrow> string" where
  "decimal_digits n =
     (if n < 10 then [''0123456789'' ! n]
      else decimal_digits (n div 10) @ [''0123456789'' ! (n mod 10)])"

declare decimal_digits.simps [simp del]

definition int_to_string :: "int \<Rightarrow> string" where
  "int_to_string n = (if n < 0 then ''-'' @ decimal_digits (nat (- n)) else decimal_digits (nat n))"

text \<open>
  \<open>ToString\<close>, as a template literal applies it. A plain object answers
  \<open>[object Object]\<close> through the inherited \<open>toString\<close>; an own property named
  \<open>toString\<close> shadows it with a value that is not callable, and the conversion
  throws. An array joins its elements with commas, \<open>null\<close> and \<open>undefined\<close>
  elements rendered empty.
\<close>

fun ToString :: "jsval \<Rightarrow> error + string"
  and join :: "jsval list \<Rightarrow> error + string" where
  "ToString JUndefined = Inr ''undefined''"
| "ToString JNull = Inr ''null''"
| "ToString (JBool b) = Inr (if b then ''true'' else ''false'')"
| "ToString (JNum n) = Inr (int_to_string n)"
| "ToString (JStr s) = Inr s"
| "ToString (JArr xs) = join xs"
| "ToString (JObj kvs) =
     (if ''toString'' \<in> set (map fst kvs) then Inl TypeError else Inr ''[object Object]'')"
| "join [] = Inr []"
| "join (x # xs) =
     (case (if x = JUndefined \<or> x = JNull then Inr [] else ToString x) of
        Inl e \<Rightarrow> Inl e
      | Inr s \<Rightarrow>
          (if xs = [] then Inr s
           else (case join xs of Inl e \<Rightarrow> Inl e | Inr t \<Rightarrow> Inr (s @ '','' @ t))))"

subsection \<open>Conversion to numbers and the comparison with zero\<close>

text \<open>
  A numeric value before it is rounded to a double: \<open>Finite q\<close> is the exact
  mathematical value \<open>q\<close>.
\<close>

datatype jsnum = NaN | PosInfinity | NegInfinity | Finite rat

definition StrWhiteSpaceChar :: "char \<Rightarrow> bool" where
  "StrWhiteSpaceChar c \<longleftrightarrow>
     c \<in> set [CHR 0x09, CHR 0x0A, CHR 0x0B, CHR 0x0C, CHR 0x0D, CHR 0x20, CHR 0xA0]"

definition trim :: "string \<Rightarrow> string" where
  "trim s = rev (dropWhile StrWhiteSpaceChar (rev (dropWhile StrWhiteSpaceChar s)))"

definition digit_of :: "char \<Rightarrow> nat option" where
  "digit_of c =
     (let n = (of_char c :: nat) in
      if 48 \<le> n \<and> n \<le> 57 then Some (n - 48)
      else if 97 \<le> n \<and> n \<le> 102 then Some (n - 87)
      else if 65 \<le> n \<and> n \<le> 70 then Some (n - 55)
      else None)"

fun digits_value :: "nat \<Rightarrow> string \<Rightarrow> nat \<Rightarrow> nat option" where
  "digits_value b [] acc = Some acc"
| "digits_value b (c # cs) acc =
     (case digit_of c of
        None \<Rightarrow> None
      | Some d \<Rightarrow> if d < b then digits_value b cs (acc * b + d) else None)"

text \<open>One or more digits of the radix.\<close>

definition Digits :: "nat \<Rightarrow> string \<Rightarrow> nat option" where
  "Digits b s = (if s = [] then None else digits_value b s 0)"

text \<open>\<open>ExponentPart\<close> without its indicator: an optional sign and decimal digits.\<close>

definition SignedInteger :: "string \<Rightarrow> int option" where
  "SignedInteger s =
     (case s of
        [] \<Rightarrow> None
      | c # cs \<Rightarrow>
          if c = CHR ''-'' then map_option (\<lambda>n. - int n) (Digits 10 cs)
          else if c = CHR ''+'' then map_option int (Digits 10 cs)
          else map_option int (Digits 10 s))"

definition scale10 :: "rat \<Rightarrow> int \<Rightarrow> rat" where
  "scale10 q e = (if 0 \<le> e then q * 10 ^ nat e else q / 10 ^ nat (- e))"

text \<open>
  \<open>StrUnsignedDecimalLiteral\<close>: \<open>Infinity\<close>, or digits with an optional
  fraction and an optional exponent; at least one digit before the exponent.
\<close>

definition StrUnsignedDecimalLiteral :: "string \<Rightarrow> jsnum" where
  "StrUnsignedDecimalLiteral s =
     (if s = ''Infinity'' then PosInfinity
      else
        let noexp = (\<lambda>c. c \<noteq> CHR ''e'' \<and> c \<noteq> CHR ''E'');
            m = takeWhile noexp s;
            r = dropWhile noexp s;
            ip = takeWhile (\<lambda>c. c \<noteq> CHR ''.'') m;
            fp = drop 1 (dropWhile (\<lambda>c. c \<noteq> CHR ''.'') m);
            ex = (if r = [] then Some 0 else SignedInteger (drop 1 r))
        in if ip = [] \<and> fp = [] then NaN
           else
             (case (digits_value 10 ip 0, digits_value 10 fp 0, ex) of
                (Some i, Some f, Some e) \<Rightarrow>
                   Finite (scale10 (of_nat i + of_nat f / 10 ^ length fp) e)
              | _ \<Rightarrow> NaN))"

definition negate :: "jsnum \<Rightarrow> jsnum" where
  "negate x =
     (case x of
        NaN \<Rightarrow> NaN
      | PosInfinity \<Rightarrow> NegInfinity
      | NegInfinity \<Rightarrow> PosInfinity
      | Finite q \<Rightarrow> Finite (- q))"

definition StrDecimalLiteral :: "string \<Rightarrow> jsnum" where
  "StrDecimalLiteral s =
     (case s of
        [] \<Rightarrow> NaN
      | c # cs \<Rightarrow>
          if c = CHR ''-'' then negate (StrUnsignedDecimalLiteral cs)
          else if c = CHR ''+'' then StrUnsignedDecimalLiteral cs
          else StrUnsignedDecimalLiteral s)"

definition of_digits :: "nat option \<Rightarrow> jsnum" where
  "of_digits d = (case d of None \<Rightarrow> NaN | Some n \<Rightarrow> Finite (of_nat n))"

text \<open>
  \<open>StringToNumber\<close>: white space is trimmed; the empty string is zero; an
  unsigned hexadecimal, octal or binary literal, or a signed decimal one;
  anything else is \<open>NaN\<close>.
\<close>

definition StringToNumber :: "string \<Rightarrow> jsnum" where
  "StringToNumber s =
     (let t = trim s in
      if t = [] then Finite 0
      else if take 2 t = ''0x'' \<or> take 2 t = ''0X'' then of_digits (Digits 16 (drop 2 t))
      else if take 2 t = ''0o'' \<or> take 2 t = ''0O'' then of_digits (Digits 8 (drop 2 t))
      else if take 2 t = ''0b'' \<or> take 2 t = ''0B'' then of_digits (Digits 2 (drop 2 t))
      else StrDecimalLiteral t)"

text \<open>
  \<open>ToNumber\<close> after \<open>ToPrimitive\<close>: an array or object first becomes the string
  that \<open>ToString\<close> gives (the inherited \<open>valueOf\<close> returns the object itself,
  an own \<open>valueOf\<close> is not callable, so \<open>toString\<close> decides in both cases).
\<close>

fun ToNumber :: "jsval \<Rightarrow> error + jsnum" where
  "ToNumber JUndefined = Inr NaN"
| "ToNumber JNull = Inr (Finite 0)"
| "ToNumber (JBool b) = Inr (Finite (if b then 1 else 0))"
| "ToNumber (JNum n) = Inr (Finite (of_int n))"
| "ToNumber (JStr s) = Inr (StringToNumber s)"
| "ToNumber v = (case ToString v of Inl e \<Rightarrow> Inl e | Inr s \<Rightarrow> Inr (StringToNumber s))"

text \<open>
  Whether the double a value rounds to is greater than zero. A positive value
  rounds to \<open>+0\<close> exactly when it is at most half the least subnormal,
  \<open>2^-1075\<close> (the tie goes to the even neighbour, zero).
\<close>

fun above_zero :: "jsnum \<Rightarrow> bool" where
  "above_zero NaN = False"
| "above_zero PosInfinity = True"
| "above_zero NegInfinity = False"
| "above_zero (Finite q) = (1 / 2 ^ 1075 < q)"

text \<open>The relational expression \<open>v > 0\<close>.\<close>

definition gt_zero :: "jsval \<Rightarrow> error + bool" where
  "gt_zero v = (case ToNumber v of Inl e \<Rightarrow> Inl e | Inr x \<Rightarrow> Inr (above_zero x))"

section \<open>The sync controller (sync_js_button.js)\<close>

text \<open>
  What the controller does to the host is recorded as a trace of service calls,
  in the order they are issued: \<open>DialogAdd title body\<close> for the confirmation
  dialog, \<open>OrmCall model method args\<close>, \<open>DoAction action\<close>,
  \<open>NotificationAdd message type title\<close>, \<open>RootLoad\<close> for
  \<open>model.root.load()\<close> and \<open>Render force\<close>.
\<close>

datatype event =
    DialogAdd string string
  | OrmCall string string jsval
  | DoAction jsval
  | NotificationAdd string string string
  | RootLoad
  | Render bool

text \<open>
  The host services whose promises the controller awaits: each either fulfils
  (\<open>Inr\<close>) or rejects (\<open>Inl\<close>). \<open>notification.add\<close>, \<open>dialogService.add\<close>
  and \<open>render\<close> are synchronous calls of the host that return normally.
\<close>

record services =
  orm_call :: "string \<Rightarrow> string \<Rightarrow> jsval \<Rightarrow> error + jsval"
  doAction :: "jsval \<Rightarrow> error + unit"
  root_load :: "error + unit"

type_synonym outcome = "(error + unit) \<times> event list"

text \<open>
  The \<open>if / else if / else\<close> chain on the result of the remote call
  (lines 30 to 46).
\<close>

definition on_result :: "services \<Rightarrow> jsval \<Rightarrow> event list \<Rightarrow> outcome" where
  "on_result sv result tr =
     (case and_type result of
        Inl e \<Rightarrow> (Inl e, tr)
      | Inr c \<Rightarrow>
          if ToBoolean c then (doAction sv result, tr @ [DoAction result])
          else
            (case gt_zero result of
               Inl e \<Rightarrow> (Inl e, tr)
             | Inr pos \<Rightarrow>
                 if pos then
                   (case ToString result of
                      Inl e \<Rightarrow> (Inl e, tr)
                    | Inr s \<Rightarrow>
                        (Inr (),
                         tr @ [NotificationAdd
                                 (''Successfully created '' @ s @ '' new draft for accrual.'')
                                 ''success'' ''Success!'']))
                 else
                   (Inr (),
                    tr @ [NotificationAdd ''No new records were created for accrual.''
                            ''info'' ''Info''])))"

text \<open>
  The \<open>confirm\<close> callback (lines 22 to 51): the remote call, whose argument
  list holds one empty list of record ids, the chain above, then
  \<open>model.root.load()\<close> and \<open>render(true)\<close>. A rejected await ends the
  callback with that error.
\<close>

definition confirm :: "services \<Rightarrow> event list \<Rightarrow> outcome" where
  "confirm sv tr =
     (let tr1 = tr @ [OrmCall ''saatchi.accrued_revenue'' ''sync_new_records_for_accrual''
                        (JArr [JArr []])]
      in case orm_call sv ''saatchi.accrued_revenue'' ''sync_new_records_for_accrual''
                (JArr [JArr []]) of
           Inl e \<Rightarrow> (Inl e, tr1)
         | Inr result \<Rightarrow>
             (case on_result sv result tr1 of
                (Inl e, tr2) \<Rightarrow> (Inl e, tr2)
              | (Inr u, tr2) \<Rightarrow>
                  (case root_load sv of
                     Inl e \<Rightarrow> (Inl e, tr2 @ [RootLoad])
                   | Inr v \<Rightarrow> (Inr (), tr2 @ [RootLoad, Render True]))))"

text \<open>The \<open>cancel\<close> callback (lines 52 to 54) has an empty body.\<close>

definition cancel :: "event list \<Rightarrow> outcome" where
  "cancel tr = (Inr (), tr)"

text \<open>\<open>OnTestClick\<close> itself only opens the confirmation dialog.\<close>

definition OnTestClick :: "event list \<Rightarrow> outcome" where
  "OnTestClick tr =
     (Inr (),
      tr @ [DialogAdd ''Confirm Action''
              ''Are you sure you want to sync new records for accrual? This will process all eligible sale orders.''])"

text \<open>
  The dialog then runs exactly one of the two callbacks, as the user chooses.
  \<open>click_and_choose\<close> is a click on the button followed by that choice, on
  an empty trace.
\<close>

datatype choice = Confirm | Cancel

definition click_and_choose :: "services \<Rightarrow> choice \<Rightarrow> outcome" where
  "click_and_choose sv ch =
     (case ch of
        Confirm \<Rightarrow> confirm sv (snd (OnTestClick []))
      | Cancel \<Rightarrow> cancel (snd (OnTestClick [])))"

text \<open>Projections of a trace used to count calls.\<close>

fun is_orm_call :: "event \<Rightarrow> bool" where
  "is_orm_call (OrmCall m f a) = True"
| "is_orm_call e = False"

fun is_notification :: "event \<Rightarrow> bool" where
  "is_notification (NotificationAdd m t h) = True"
| "is_notification e = False"

fun is_do_action :: "event \<Rightarrow> bool" where
  "is_do_action (DoAction a) = True"
| "is_do_action e = False"

fun is_refresh :: "event \<Rightarrow> bool" where
  "is_refresh RootLoad = True"
| "is_refresh (Render b) = True"
| "is_refresh e = False"

text \<open>
  Shorthand for the two events every confirmed run starts with, and for the
  answer of the host to the remote call of \<open>confirm\<close>.
\<close>

abbreviation confirm_dialog :: event where
  "confirm_dialog \<equiv>
     DialogAdd ''Confirm Action''
       ''Are you sure you want to sync new records for accrual? This will process all eligible sale orders.''"

abbreviation sync_call :: event where
  "sync_call \<equiv>
     OrmCall ''saatchi.accrued_revenue'' ''sync_new_records_for_accrual'' (JArr [JArr []])"

abbreviation reply :: "services \<Rightarrow> error + jsval" where
  "reply sv \<equiv>
     orm_call sv ''saatchi.accrued_revenue'' ''sync_new_records_for_accrual'' (JArr [JArr []])"

text \<open>What follows the chain when it completes: the reload, and the re-render if the reload fulfils.\<close>

abbreviation refresh :: "services \<Rightarrow> event list" where
  "refresh sv \<equiv> RootLoad # (case root_load sv of Inl e \<Rightarrow> [] | Inr u \<Rightarrow> [Render True])"

text \<open>
  Two hosts used to run the controller on concrete inputs: one whose remote call
  fulfils with a given value and whose other promises fulfil, one whose remote
  call rejects with a given error.
\<close>

definition fulfilling :: "jsval \<Rightarrow> services" where
  "fulfilling r = \<lparr>orm_call = (\<lambda>m f a. Inr r), doAction = (\<lambda>a. Inr ()), root_load = Inr ()\<rparr>"

definition rejecting :: "error \<Rightarrow> services" where
  "rejecting e = \<lparr>orm_call = (\<lambda>m f a. Inl e), doAction = (\<lambda>a. Inr ()), root_load = Inr ()\<rparr>"

section \<open>The fold controller\<close>

text \<open>
  An element of the rendered page: its class tokens and its child elements.
  The document is given by its root element.
\<close>

datatype element = Element (classList: "string list") (children: "element list")

text \<open>An element followed by its descendants, in tree order.\<close>

fun elements :: "element \<Rightarrow> element list"
  and elements_of :: "element list \<Rightarrow> element list" where
  "elements (Element cs ks) = Element cs ks # elements_of ks"
| "elements_of [] = []"
| "elements_of (k # ks) = elements k @ elements_of ks"

definition descendants :: "element \<Rightarrow> element list" where
  "descendants e = elements_of (children e)"

text \<open>A compound class selector \<open>.a.b\<close> is the list of its class names.\<close>

definition matches :: "string list \<Rightarrow> element \<Rightarrow> bool" where
  "matches sel e = list_all (\<lambda>c. c \<in> set (classList e)) sel"

text \<open>
  \<open>document.querySelectorAll\<close>: every element of the document that matches,
  in tree order. Elements are told apart by their position in that order, so
  each result is a position together with the element found there.
\<close>

definition querySelectorAll :: "element \<Rightarrow> string list \<Rightarrow> (nat \<times> element) list" where
  "querySelectorAll doc sel = filter (\<lambda>h. matches sel (snd h)) (enumerate 0 (elements doc))"

text \<open>\<open>header.querySelector\<close>: the first matching descendant, if any.\<close>

definition querySelector :: "element \<Rightarrow> string list \<Rightarrow> element option" where
  "querySelector e sel = find (matches sel) (descendants e)"

text \<open>
  Both handlers return the clicks they dispatch, in order, each click named by
  the position of the header it is dispatched on.
\<close>

definition onUnfoldAllClick :: "element \<Rightarrow> nat list" where
  "onUnfoldAllClick doc =
     (let groupHeaders = querySelectorAll doc [''o_group_header'', ''o_group_has_content''];
          foldedHeaders = filter (\<lambda>header. querySelector (snd header) [''fa-caret-right''] \<noteq> None)
                            groupHeaders
      in map fst foldedHeaders)"

definition onFoldAllClick :: "element \<Rightarrow> nat list" where
  "onFoldAllClick doc =
     (let groupHeaders = querySelectorAll doc [''o_group_header'', ''o_group_has_content''];
          unfoldedHeaders = filter (\<lambda>header. querySelector (snd header) [''fa-caret-down''] \<noteq> None)
                              groupHeaders
      in map fst unfoldedHeaders)"

text \<open>
  The vocabulary of the properties below: an element has a class, and it bears
  a marker when one of its descendants has the marker's class.
\<close>

definition has_class :: "string \<Rightarrow> element \<Rightarrow> bool" where
  "has_class c e \<longleftrightarrow> c \<in> set (classList e)"

definition bears :: "string \<Rightarrow> element \<Rightarrow> bool" where
  "bears c e \<longleftrightarrow> list_ex (has_class c) (descendants e)"

text \<open>
  A page with four rows under one table body: a collapsed group with content,
  an expanded group with content, a collapsed group without content, and a
  data row.
\<close>

definition caret :: "string \<Rightarrow> element" where
  "caret c = Element [''o_group_name''] [Element [''o_group_caret'', ''fa'', c] []]"

definition sample_page :: element where
  "sample_page =
     Element [''o_list_table'']
       [Element [''o_group_header'', ''o_group_has_content''] [caret ''fa-caret-right''],
        Element [''o_group_header'', ''o_group_has_content''] [caret ''fa-caret-down''],
        Element [''o_group_header''] [caret ''fa-caret-right''],
        Element [''o_data_row''] []]"

section \<open>Facts about the conversions\<close>



lemma StringToNumber_object: "StringToNumber ''[object Object]'' = NaN"
  by (simp add: StringToNumber_def trim_def StrWhiteSpaceChar_def StrDecimalLiteral_def
      StrUnsignedDecimalLiteral_def digit_of_def)

lemma gt_zero_JObj:
  "gt_zero (JObj kvs) = (if ''toString'' \<in> fst ` set kvs then Inl TypeError else Inr False)"
  by (simp add: gt_zero_def StringToNumber_object)



text \<open>A string result that reads as a positive number compares greater than zero.\<close>

lemma gt_zero_numeric_string: "gt_zero (JStr ''5'') = Inr True"
  by (simp add: gt_zero_def StringToNumber_def trim_def StrWhiteSpaceChar_def
      StrDecimalLiteral_def StrUnsignedDecimalLiteral_def digit_of_def scale10_def)

lemma and_type_JObj:
  "and_type (JObj kvs) = Inr (case map_of kvs ''type'' of None \<Rightarrow> JUndefined | Some v \<Rightarrow> v)"
  by (simp add: and_type_def split: option.splits)

text \<open>The digits written for a count read back as that count.\<close>

lemma digits_value_append:
  "digits_value b (xs @ ys) acc =
     (case digits_value b xs acc of None \<Rightarrow> None | Some a \<Rightarrow> digits_value b ys a)"
  by (induction xs arbitrary: acc) (auto split: option.splits)

lemma digit_of_decimal: "d < 10 \<Longrightarrow> digit_of (''0123456789'' ! d) = Some d"
proof -
  assume "d < 10"
  then have "d \<in> {0, 1, 2, 3, 4, 5, 6, 7, 8, 9}" by auto
  then show ?thesis by (auto simp add: digit_of_def)
qed

lemma decimal_digits_read_back: "digits_value 10 (decimal_digits n) 0 = Some n"
proof (induction n rule: decimal_digits.induct)
  case (1 n)
  show ?case
  proof (cases "n < 10")
    case True
    then show ?thesis by (subst decimal_digits.simps) (simp add: digit_of_decimal)
  next
    case False
    with 1 have "digits_value 10 (decimal_digits (n div 10)) 0 = Some (n div 10)" by simp
    with False show ?thesis
      by (subst decimal_digits.simps) (simp add: digits_value_append digit_of_decimal)
  qed
qed

section \<open>Facts about the sync controller\<close>

lemma fulfilling_simps:
  "reply (fulfilling r) = Inr r" "doAction (fulfilling r) a = Inr ()"
  "root_load (fulfilling r) = Inr ()"
  by (simp_all add: fulfilling_def)

lemma rejecting_simps: "reply (rejecting e) = Inl e"
  by (simp add: rejecting_def)

subsection \<open>The chain on the result\<close>

lemma on_result_action:
  "and_type r = Inr c \<Longrightarrow> ToBoolean c \<Longrightarrow>
   on_result sv r tr = (doAction sv r, tr @ [DoAction r])"
  by (simp add: on_result_def)


lemma on_result_info:
  "and_type r = Inr c \<Longrightarrow> \<not> ToBoolean c \<Longrightarrow> gt_zero r = Inr False \<Longrightarrow>
   on_result sv r tr =
     (Inr (), tr @ [NotificationAdd ''No new records were created for accrual.'' ''info'' ''Info''])"
  by (simp add: on_result_def)

lemma on_result_throws:
  "and_type r = Inr c \<Longrightarrow> \<not> ToBoolean c \<Longrightarrow> gt_zero r = Inl e \<Longrightarrow>
   on_result sv r tr = (Inl e, tr)"
  by (simp add: on_result_def)

lemma on_result_orm_calls: "filter is_orm_call (snd (on_result sv r tr)) = filter is_orm_call tr"
  by (simp add: on_result_def split: sum.splits)

subsection \<open>The confirm callback\<close>

lemma click_confirm: "click_and_choose sv Confirm = confirm sv [confirm_dialog]"
  by (simp add: click_and_choose_def OnTestClick_def)

lemma confirm_rejected: "reply sv = Inl e \<Longrightarrow> confirm sv tr = (Inl e, tr @ [sync_call])"
  by (simp add: confirm_def)

lemma confirm_step_fails:
  "reply sv = Inr r \<Longrightarrow> on_result sv r (tr @ [sync_call]) = (Inl e, tr2) \<Longrightarrow>
   confirm sv tr = (Inl e, tr2)"
  by (simp add: confirm_def)

lemma confirm_step_done:
  "reply sv = Inr r \<Longrightarrow> on_result sv r (tr @ [sync_call]) = (Inr u, tr2) \<Longrightarrow>
   confirm sv tr = (root_load sv, tr2 @ refresh sv)"
  by (cases "root_load sv") (simp_all add: confirm_def)

lemma confirm_orm_calls:
  "filter is_orm_call (snd (confirm sv tr)) = filter is_orm_call tr @ [sync_call]"
proof (cases "reply sv")
  case (Inl e)
  then show ?thesis by (simp add: confirm_rejected)
next
  case (Inr r)
  obtain x tr2 where step: "on_result sv r (tr @ [sync_call]) = (x, tr2)"
    by (cases "on_result sv r (tr @ [sync_call])")
  have calls: "filter is_orm_call tr2 = filter is_orm_call tr @ [sync_call]"
    using on_result_orm_calls [of sv r "tr @ [sync_call]"] step by simp
  show ?thesis
  proof (cases x)
    case (Inl e)
    then show ?thesis using Inr step calls by (simp add: confirm_step_fails)
  next
    case (Inr u)
    then show ?thesis using \<open>reply sv = Inr r\<close> step calls
      by (simp add: confirm_step_done split: sum.splits)
  qed
qed

lemma confirm_fulfilled_ends_with_refresh:
  assumes "fst (confirm sv tr) = Inr ()"
  shows "\<exists>pre. snd (confirm sv tr) = pre @ [RootLoad, Render True]"
proof (cases "reply sv")
  case (Inl e)
  then show ?thesis using assms by (simp add: confirm_rejected)
next
  case (Inr r)
  obtain x tr2 where step: "on_result sv r (tr @ [sync_call]) = (x, tr2)"
    by (cases "on_result sv r (tr @ [sync_call])")
  show ?thesis
  proof (cases x)
    case (Inl e)
    then show ?thesis using Inr step assms by (simp add: confirm_step_fails)
  next
    case (Inr u)
    with \<open>reply sv = Inr r\<close> step have c: "confirm sv tr = (root_load sv, tr2 @ refresh sv)"
      by (simp add: confirm_step_done)
    with assms have "root_load sv = Inr ()" by simp
    with c show ?thesis by simp
  qed
qed

lemma info_run:
  assumes "reply sv = Inr r" and "and_type r = Inr c" and "\<not> ToBoolean c"
    and "gt_zero r = Inr False"
  shows "click_and_choose sv Confirm =
           (root_load sv,
            [confirm_dialog, sync_call,
             NotificationAdd ''No new records were created for accrual.'' ''info'' ''Info'']
            @ refresh sv)"
proof -
  have "on_result sv r ([confirm_dialog] @ [sync_call]) =
          (Inr (), ([confirm_dialog] @ [sync_call]) @
             [NotificationAdd ''No new records were created for accrual.'' ''info'' ''Info''])"
    using assms(2,3,4) by (rule on_result_info)
  from confirm_step_done [OF assms(1) this] show ?thesis by (simp add: click_confirm)
qed

section \<open>Properties of the sync controller\<close>

text \<open>
  Claim C1, as stated: when the remote call returns an object with a \<open>type\<close>
  field the run forwards it and returns early, without reload and re-render.
  The code has no early return. With the action
  \<open>{type: "ir.actions.act_window"}\<close> and every promise fulfilling, the reload
  and the forced re-render follow the forwarded action.
\<close>

theorem action_branch_reloads_counterexample:
  "click_and_choose (fulfilling (JObj [(''type'', JStr ''ir.actions.act_window'')])) Confirm =
     (Inr (), [confirm_dialog, sync_call,
               DoAction (JObj [(''type'', JStr ''ir.actions.act_window'')]),
               RootLoad, Render True])"
  by (simp add: click_confirm confirm_def on_result_def and_type_def fulfilling_def)

text \<open>
  Claim C1, amended: when the remote call returns an object whose \<open>type\<close> is
  truthy, the object is forwarded to the action service and, once that call
  fulfils, the record set is reloaded and (the reload fulfilling) a re-render
  is forced, as in the other branches; and every confirmed run that fulfils
  ends with the reload followed by the forced re-render.
\<close>

theorem refresh_after_every_branch:
  "(reply sv = Inr (JObj kvs) \<and> map_of kvs ''type'' = Some t \<and> ToBoolean t
      \<and> doAction sv (JObj kvs) = Inr () \<longrightarrow>
      click_and_choose sv Confirm =
        (root_load sv, [confirm_dialog, sync_call, DoAction (JObj kvs)] @ refresh sv))
   \<and> (fst (click_and_choose sv Confirm) = Inr () \<longrightarrow>
        (\<exists>pre. snd (click_and_choose sv Confirm) = pre @ [RootLoad, Render True]))"
proof (intro conjI impI)
  assume h: "reply sv = Inr (JObj kvs) \<and> map_of kvs ''type'' = Some t \<and> ToBoolean t
      \<and> doAction sv (JObj kvs) = Inr ()"
  then have "on_result sv (JObj kvs) ([confirm_dialog] @ [sync_call]) =
          (Inr (), ([confirm_dialog] @ [sync_call]) @ [DoAction (JObj kvs)])"
    using on_result_action [of "JObj kvs" t sv] by (simp add: and_type_JObj)
  moreover from h have "reply sv = Inr (JObj kvs)" by simp
  ultimately show "click_and_choose sv Confirm =
        (root_load sv, [confirm_dialog, sync_call, DoAction (JObj kvs)] @ refresh sv)"
    using confirm_step_done [of sv "JObj kvs" "[confirm_dialog]"] by (simp add: click_confirm)
next
  assume "fst (click_and_choose sv Confirm) = Inr ()"
  then show "\<exists>pre. snd (click_and_choose sv Confirm) = pre @ [RootLoad, Render True]"
    unfolding click_confirm by (rule confirm_fulfilled_ends_with_refresh)
qed

theorem refresh_after_every_branch_witness:
  "reply (fulfilling (JObj [(''type'', JStr ''ir.actions.act_window'')]))
     = Inr (JObj [(''type'', JStr ''ir.actions.act_window'')])
   \<and> map_of [(''type'', JStr ''ir.actions.act_window'')] ''type''
       = Some (JStr ''ir.actions.act_window'')
   \<and> ToBoolean (JStr ''ir.actions.act_window'')
   \<and> doAction (fulfilling (JObj [(''type'', JStr ''ir.actions.act_window'')]))
        (JObj [(''type'', JStr ''ir.actions.act_window'')]) = Inr ()
   \<and> fst (click_and_choose (fulfilling (JObj [(''type'', JStr ''ir.actions.act_window'')]))
        Confirm) = Inr ()
   \<and> snd (click_and_choose (fulfilling (JObj [(''type'', JStr ''ir.actions.act_window'')]))
        Confirm) =
       [confirm_dialog, sync_call,
        DoAction (JObj [(''type'', JStr ''ir.actions.act_window'')])] @ [RootLoad, Render True]"
  using refresh_after_every_branch
    [of "fulfilling (JObj [(''type'', JStr ''ir.actions.act_window'')])"
      "[(''type'', JStr ''ir.actions.act_window'')]" "JStr ''ir.actions.act_window''"]
  by (simp add: fulfilling_simps)

text \<open>
  Claim C2, as stated: the positional-argument list of the one remote call is
  empty. The code passes a list with one element, the empty list of record ids.
\<close>

theorem sync_call_arguments_counterexample:
  "filter is_orm_call (snd (click_and_choose (fulfilling (JNum 5)) Confirm))
     \<noteq> [OrmCall ''saatchi.accrued_revenue'' ''sync_new_records_for_accrual'' (JArr [])]"
  by (simp add: click_confirm confirm_orm_calls)

text \<open>
  Claim C2, amended: every confirmed run issues exactly one remote call, to
  \<open>sync_new_records_for_accrual\<close> on \<open>saatchi.accrued_revenue\<close>, and its
  positional-argument list has exactly one element, an empty list.
\<close>

theorem one_sync_call:
  "filter is_orm_call (snd (click_and_choose sv Confirm)) =
     [OrmCall ''saatchi.accrued_revenue'' ''sync_new_records_for_accrual'' (JArr [JArr []])]"
  by (simp add: click_confirm confirm_orm_calls)

theorem one_sync_call_witness:
  "filter is_orm_call (snd (click_and_choose (fulfilling (JNum 5)) Confirm)) =
     [OrmCall ''saatchi.accrued_revenue'' ''sync_new_records_for_accrual'' (JArr [JArr []])]
   \<and> filter is_orm_call
        (snd (click_and_choose (rejecting (Rejected ''ConnectionLostError'')) Confirm)) =
     [OrmCall ''saatchi.accrued_revenue'' ''sync_new_records_for_accrual'' (JArr [JArr []])]"
  using one_sync_call [of "fulfilling (JNum 5)"]
    one_sync_call [of "rejecting (Rejected ''ConnectionLostError'')"]
  by simp






text \<open>
  Claim C5: when the user cancels, the run consists of the dialog alone: no
  remote call, no notification, no reload and no re-render; the \<open>cancel\<close>
  callback leaves the trace as it found it.
\<close>

theorem cancel_is_inert:
  "click_and_choose sv Cancel = (Inr (), [confirm_dialog])
   \<and> filter is_orm_call (snd (click_and_choose sv Cancel)) = []
   \<and> filter is_notification (snd (click_and_choose sv Cancel)) = []
   \<and> filter is_refresh (snd (click_and_choose sv Cancel)) = []
   \<and> cancel tr = (Inr (), tr)"
  by (simp add: click_and_choose_def OnTestClick_def cancel_def)

theorem cancel_is_inert_witness:
  "click_and_choose (fulfilling (JNum 5)) Cancel = (Inr (), [confirm_dialog])
   \<and> filter is_orm_call (snd (click_and_choose (fulfilling (JNum 5)) Cancel)) = []
   \<and> filter is_notification (snd (click_and_choose (fulfilling (JNum 5)) Cancel)) = []
   \<and> filter is_refresh (snd (click_and_choose (fulfilling (JNum 5)) Cancel)) = []"
  using cancel_is_inert [of "fulfilling (JNum 5)" "[]"] by simp

text \<open>
  Claim C6, as stated: every result that is an object with a \<open>type\<close> field is
  handed to the action service and no notification is shown. The code tests
  the field for truthiness: the object \<open>{type: ""}\<close> has the field, is not
  handed over, and gets the info notification.
\<close>

theorem empty_type_not_forwarded_counterexample:
  "click_and_choose (fulfilling (JObj [(''type'', JStr [])])) Confirm =
     (Inr (), [confirm_dialog, sync_call,
               NotificationAdd ''No new records were created for accrual.'' ''info'' ''Info'',
               RootLoad, Render True])"
  by (simp add: click_confirm confirm_def on_result_def and_type_def fulfilling_def gt_zero_JObj)

text \<open>
  Claim C6, amended: when the remote call returns an object whose \<open>type\<close>
  field is truthy, the action service is called once, with exactly that
  object, and no notification is shown, before the reload or at all.
\<close>

theorem action_forwarded_unmodified:
  assumes "reply sv = Inr (JObj kvs)" and "map_of kvs ''type'' = Some t" and "ToBoolean t"
  shows "snd (click_and_choose sv Confirm) =
           [confirm_dialog, sync_call, DoAction (JObj kvs)]
           @ (case doAction sv (JObj kvs) of Inl e \<Rightarrow> [] | Inr u \<Rightarrow> refresh sv)
         \<and> filter is_do_action (snd (click_and_choose sv Confirm)) = [DoAction (JObj kvs)]
         \<and> filter is_notification (snd (click_and_choose sv Confirm)) = []"
proof -
  have step: "on_result sv (JObj kvs) ([confirm_dialog] @ [sync_call]) =
          (doAction sv (JObj kvs), ([confirm_dialog] @ [sync_call]) @ [DoAction (JObj kvs)])"
    using assms(2,3) on_result_action [of "JObj kvs" t sv] by (simp add: and_type_JObj)
  have "snd (click_and_choose sv Confirm) =
           [confirm_dialog, sync_call, DoAction (JObj kvs)]
           @ (case doAction sv (JObj kvs) of Inl e \<Rightarrow> [] | Inr u \<Rightarrow> refresh sv)"
  proof (cases "doAction sv (JObj kvs)")
    case (Inl e)
    with step confirm_step_fails [OF assms(1), of "[confirm_dialog]" e] show ?thesis
      by (simp add: click_confirm)
  next
    case (Inr u)
    with step confirm_step_done [OF assms(1), of "[confirm_dialog]" u] show ?thesis
      by (simp add: click_confirm)
  qed
  then show ?thesis by (simp split: sum.splits)
qed

theorem action_forwarded_unmodified_witness:
  "reply (fulfilling (JObj [(''type'', JStr ''ir.actions.act_window''),
                            (''res_model'', JStr ''sync.wizard'')]))
     = Inr (JObj [(''type'', JStr ''ir.actions.act_window''),
                  (''res_model'', JStr ''sync.wizard'')])
   \<and> map_of [(''type'', JStr ''ir.actions.act_window''), (''res_model'', JStr ''sync.wizard'')]
        ''type'' = Some (JStr ''ir.actions.act_window'')
   \<and> ToBoolean (JStr ''ir.actions.act_window'')
   \<and> snd (click_and_choose
        (fulfilling (JObj [(''type'', JStr ''ir.actions.act_window''),
                           (''res_model'', JStr ''sync.wizard'')])) Confirm)
       = [confirm_dialog, sync_call,
          DoAction (JObj [(''type'', JStr ''ir.actions.act_window''),
                          (''res_model'', JStr ''sync.wizard'')]),
          RootLoad, Render True]"
  using action_forwarded_unmodified [of
      "fulfilling (JObj [(''type'', JStr ''ir.actions.act_window''),
                         (''res_model'', JStr ''sync.wizard'')])"
      "[(''type'', JStr ''ir.actions.act_window''), (''res_model'', JStr ''sync.wizard'')]"
      "JStr ''ir.actions.act_window''"]
  by (simp add: fulfilling_simps)

text \<open>
  Claim C7: when the remote call rejects, the \<open>confirm\<close> callback rejects with
  the same error; the run holds the dialog and the call and nothing else, so
  no notification is shown and nothing is reloaded.
\<close>

theorem rejection_propagates:
  assumes "reply sv = Inl e"
  shows "click_and_choose sv Confirm = (Inl e, [confirm_dialog, sync_call])"
  using assms by (simp add: click_confirm confirm_rejected)

theorem rejection_propagates_witness:
  "reply (rejecting (Rejected ''ConnectionLostError'')) = Inl (Rejected ''ConnectionLostError'')
   \<and> click_and_choose (rejecting (Rejected ''ConnectionLostError'')) Confirm
       = (Inl (Rejected ''ConnectionLostError''), [confirm_dialog, sync_call])"
  using rejection_propagates
    [of "rejecting (Rejected ''ConnectionLostError'')" "Rejected ''ConnectionLostError''"]
  by (simp add: rejecting_simps)

text \<open>
  Claim C9: an object whose \<open>type\<close> field is present but falsy is never handed
  to the action service; the run goes on to the test \<open>result > 0\<close>, which is
  false for a plain object, so the info notification is shown and the reload
  follows. (Only when the object has an own property \<open>toString\<close> does that test
  throw, and the callback rejects with the \<open>TypeError\<close>.)
\<close>

theorem falsy_type_skips_action:
  assumes "reply sv = Inr (JObj kvs)" and "map_of kvs ''type'' = Some t" and "\<not> ToBoolean t"
  shows "filter is_do_action (snd (click_and_choose sv Confirm)) = []
       \<and> (''toString'' \<notin> fst ` set kvs \<longrightarrow>
            click_and_choose sv Confirm =
              (root_load sv,
               [confirm_dialog, sync_call,
                NotificationAdd ''No new records were created for accrual.'' ''info'' ''Info'']
               @ refresh sv))
       \<and> (''toString'' \<in> fst ` set kvs \<longrightarrow>
            click_and_choose sv Confirm = (Inl TypeError, [confirm_dialog, sync_call]))"
proof -
  have a: "and_type (JObj kvs) = Inr t" using assms(2) by (simp add: and_type_JObj)
  show ?thesis
  proof (cases "''toString'' \<in> fst ` set kvs")
    case True
    then have "on_result sv (JObj kvs) ([confirm_dialog] @ [sync_call]) =
                 (Inl TypeError, [confirm_dialog] @ [sync_call])"
      using a assms(3) by (intro on_result_throws) (simp_all add: gt_zero_JObj)
    from confirm_step_fails [OF assms(1) this] True show ?thesis by (simp add: click_confirm)
  next
    case False
    then have "gt_zero (JObj kvs) = Inr False" by (simp add: gt_zero_JObj)
    from info_run [OF assms(1) a assms(3) this] False show ?thesis by (simp split: sum.splits)
  qed
qed

theorem falsy_type_skips_action_witness:
  "reply (fulfilling (JObj [(''type'', JNum 0)])) = Inr (JObj [(''type'', JNum 0)])
   \<and> map_of [(''type'', JNum 0)] ''type'' = Some (JNum 0) \<and> \<not> ToBoolean (JNum 0)
   \<and> ''toString'' \<notin> fst ` set [(''type'', JNum 0)]
   \<and> filter is_do_action
        (snd (click_and_choose (fulfilling (JObj [(''type'', JNum 0)])) Confirm)) = []
   \<and> click_and_choose (fulfilling (JObj [(''type'', JNum 0)])) Confirm =
       (Inr (), [confirm_dialog, sync_call,
                 NotificationAdd ''No new records were created for accrual.'' ''info'' ''Info'',
                 RootLoad, Render True])
   \<and> reply (fulfilling (JObj [(''type'', JNull), (''toString'', JNum 1)]))
       = Inr (JObj [(''type'', JNull), (''toString'', JNum 1)])
   \<and> map_of [(''type'', JNull), (''toString'', JNum 1)] ''type'' = Some JNull
   \<and> \<not> ToBoolean JNull
   \<and> ''toString'' \<in> fst ` set [(''type'', JNull), (''toString'', JNum 1)]
   \<and> click_and_choose (fulfilling (JObj [(''type'', JNull), (''toString'', JNum 1)])) Confirm =
       (Inl TypeError, [confirm_dialog, sync_call])"
  using falsy_type_skips_action
    [of "fulfilling (JObj [(''type'', JNum 0)])" "[(''type'', JNum 0)]" "JNum 0"]
    falsy_type_skips_action
    [of "fulfilling (JObj [(''type'', JNull), (''toString'', JNum 1)])"
      "[(''type'', JNull), (''toString'', JNum 1)]" JNull]
  by (simp add: fulfilling_simps)

section \<open>Facts about the fold controller\<close>

lemma clicks_count:
  "count_list (map fst (filter (\<lambda>h. Q (snd h)) (enumerate n xs))) i =
     (if n \<le> i \<and> i < n + length xs \<and> Q (xs ! (i - n)) then 1 else 0)"
proof (induction xs arbitrary: n)
  case Nil
  then show ?case by simp
next
  case (Cons x xs)
  show ?case
  proof (cases "i = n")
    case True
    then show ?thesis using Cons.IH [of "Suc n"] by simp
  next
    case False
    then show ?thesis using Cons.IH [of "Suc n"] by (auto simp add: nth_Cons' Suc_diff_le)
  qed
qed

lemma querySelector_bears: "querySelector e [c] \<noteq> None \<longleftrightarrow> bears c e"
  by (auto simp add: querySelector_def bears_def matches_def has_class_def find_None_iff
      list_ex_iff)

lemma matches_header:
  "matches [''o_group_header'', ''o_group_has_content''] e \<longleftrightarrow>
     has_class ''o_group_header'' e \<and> has_class ''o_group_has_content'' e"
  by (simp add: matches_def has_class_def)

lemma header_clicks:
  "count_list (map fst (filter (\<lambda>header. querySelector (snd header) [c] \<noteq> None)
       (querySelectorAll doc [''o_group_header'', ''o_group_has_content'']))) i =
     (if i < length (elements doc) \<and> has_class ''o_group_header'' (elements doc ! i)
         \<and> has_class ''o_group_has_content'' (elements doc ! i)
         \<and> bears c (elements doc ! i) then 1 else 0)"
proof -
  let ?Q = "\<lambda>e. has_class ''o_group_header'' e \<and> has_class ''o_group_has_content'' e
                \<and> bears c e"
  have "filter (\<lambda>header. querySelector (snd header) [c] \<noteq> None)
          (querySelectorAll doc [''o_group_header'', ''o_group_has_content''])
        = filter (\<lambda>h. ?Q (snd h)) (enumerate 0 (elements doc))"
    unfolding querySelectorAll_def filter_filter querySelector_bears matches_header
    by (rule filter_cong) auto
  then show ?thesis
    using clicks_count [where Q = ?Q and n = 0 and xs = "elements doc" and i = i] by simp
qed

lemma header_clicks_set:
  "set (map fst (filter (\<lambda>header. querySelector (snd header) [c] \<noteq> None)
       (querySelectorAll doc [''o_group_header'', ''o_group_has_content'']))) =
     {i. i < length (elements doc) \<and> has_class ''o_group_header'' (elements doc ! i)
         \<and> has_class ''o_group_has_content'' (elements doc ! i)
         \<and> bears c (elements doc ! i)}"
proof (rule set_eqI)
  fix i
  define xs where "xs = map fst (filter (\<lambda>header. querySelector (snd header) [c] \<noteq> None)
       (querySelectorAll doc [''o_group_header'', ''o_group_has_content'']))"
  have "i \<in> set xs \<longleftrightarrow> count_list xs i \<noteq> 0"
    using count_list_0_iff [of xs i] by auto
  also have "\<dots> \<longleftrightarrow> i < length (elements doc) \<and> has_class ''o_group_header'' (elements doc ! i)
         \<and> has_class ''o_group_has_content'' (elements doc ! i) \<and> bears c (elements doc ! i)"
    unfolding xs_def header_clicks by simp
  finally show "i \<in> set (map fst (filter (\<lambda>header. querySelector (snd header) [c] \<noteq> None)
       (querySelectorAll doc [''o_group_header'', ''o_group_has_content''])))
     \<longleftrightarrow> i \<in> {i. i < length (elements doc) \<and> has_class ''o_group_header'' (elements doc ! i)
         \<and> has_class ''o_group_has_content'' (elements doc ! i)
         \<and> bears c (elements doc ! i)}"
    unfolding xs_def by simp
qed

lemma no_header_no_click:
  assumes "list_all (\<lambda>e. \<not> (has_class ''o_group_header'' e \<and> has_class ''o_group_has_content'' e
                          \<and> bears c e)) (elements doc)"
  shows "map fst (filter (\<lambda>header. querySelector (snd header) [c] \<noteq> None)
           (querySelectorAll doc [''o_group_header'', ''o_group_has_content''])) = []"
proof -
  have "set (map fst (filter (\<lambda>header. querySelector (snd header) [c] \<noteq> None)
           (querySelectorAll doc [''o_group_header'', ''o_group_has_content'']))) = {}"
    unfolding header_clicks_set using assms by (auto simp add: list_all_length)
  then show ?thesis by (simp only: set_empty)
qed

lemma sample_page_elements:
  "elements sample_page =
     [sample_page,
      Element [''o_group_header'', ''o_group_has_content''] [caret ''fa-caret-right''],
      caret ''fa-caret-right'', Element [''o_group_caret'', ''fa'', ''fa-caret-right''] [],
      Element [''o_group_header'', ''o_group_has_content''] [caret ''fa-caret-down''],
      caret ''fa-caret-down'', Element [''o_group_caret'', ''fa'', ''fa-caret-down''] [],
      Element [''o_group_header''] [caret ''fa-caret-right''],
      caret ''fa-caret-right'', Element [''o_group_caret'', ''fa'', ''fa-caret-right''] [],
      Element [''o_data_row''] []]"
  by (simp add: sample_page_def caret_def)

section \<open>Properties of the fold controller\<close>

text \<open>
  Claim C8: \<open>onUnfoldAllClick\<close> dispatches exactly one click on every element
  that has the classes \<open>o_group_header\<close> and \<open>o_group_has_content\<close> and bears
  the collapsed marker \<open>fa-caret-right\<close>, and no click on any other element
  (a header without content, or one that does not bear the collapsed marker);
  \<open>onFoldAllClick\<close> does the same with the expanded marker \<open>fa-caret-down\<close>.
  When no element of the page qualifies, the handler dispatches nothing.
\<close>

theorem fold_unfold_clicks:
  "count_list (onUnfoldAllClick doc) i =
     (if i < length (elements doc) \<and> has_class ''o_group_header'' (elements doc ! i)
         \<and> has_class ''o_group_has_content'' (elements doc ! i)
         \<and> bears ''fa-caret-right'' (elements doc ! i) then 1 else 0)
   \<and> count_list (onFoldAllClick doc) i =
     (if i < length (elements doc) \<and> has_class ''o_group_header'' (elements doc ! i)
         \<and> has_class ''o_group_has_content'' (elements doc ! i)
         \<and> bears ''fa-caret-down'' (elements doc ! i) then 1 else 0)
   \<and> (list_all (\<lambda>e. \<not> (has_class ''o_group_header'' e \<and> has_class ''o_group_has_content'' e
                        \<and> bears ''fa-caret-right'' e)) (elements doc)
        \<longrightarrow> onUnfoldAllClick doc = [])
   \<and> (list_all (\<lambda>e. \<not> (has_class ''o_group_header'' e \<and> has_class ''o_group_has_content'' e
                        \<and> bears ''fa-caret-down'' e)) (elements doc)
        \<longrightarrow> onFoldAllClick doc = [])"
  unfolding onUnfoldAllClick_def onFoldAllClick_def Let_def
  by (intro conjI impI header_clicks no_header_no_click)

theorem fold_unfold_clicks_witness:
  "elements sample_page ! 1
     = Element [''o_group_header'', ''o_group_has_content''] [caret ''fa-caret-right'']
   \<and> count_list (onUnfoldAllClick sample_page) 1 = 1
   \<and> count_list (onFoldAllClick sample_page) 1 = 0
   \<and> elements sample_page ! 4
     = Element [''o_group_header'', ''o_group_has_content''] [caret ''fa-caret-down'']
   \<and> count_list (onUnfoldAllClick sample_page) 4 = 0
   \<and> count_list (onFoldAllClick sample_page) 4 = 1
   \<and> elements sample_page ! 7 = Element [''o_group_header''] [caret ''fa-caret-right'']
   \<and> count_list (onUnfoldAllClick sample_page) 7 = 0
   \<and> count_list (onFoldAllClick sample_page) 7 = 0
   \<and> list_all (\<lambda>e. \<not> (has_class ''o_group_header'' e \<and> has_class ''o_group_has_content'' e
                      \<and> bears ''fa-caret-right'' e)) (elements (Element [''o_data_row''] []))
   \<and> list_all (\<lambda>e. \<not> (has_class ''o_group_header'' e \<and> has_class ''o_group_has_content'' e
                      \<and> bears ''fa-caret-down'' e)) (elements (Element [''o_data_row''] []))
   \<and> onUnfoldAllClick (Element [''o_data_row''] []) = []
   \<and> onFoldAllClick (Element [''o_data_row''] []) = []"
  using fold_unfold_clicks [of sample_page 1] fold_unfold_clicks [of sample_page 4]
    fold_unfold_clicks [of sample_page 7] fold_unfold_clicks [of "Element [''o_data_row''] []" 0]
  by (simp add: sample_page_elements has_class_def bears_def descendants_def caret_def)

text \<open>
  Claim C10: on a page where no group header bears both the collapsed and the
  expanded marker, no element is clicked by both handlers.
\<close>

theorem fold_unfold_disjoint:
  assumes "list_all (\<lambda>e. has_class ''o_group_header'' e \<longrightarrow>
                        \<not> (bears ''fa-caret-right'' e \<and> bears ''fa-caret-down'' e))
             (elements doc)"
  shows "set (onUnfoldAllClick doc) \<inter> set (onFoldAllClick doc) = {}"
proof -
  have "\<And>i. i < length (elements doc) \<Longrightarrow> has_class ''o_group_header'' (elements doc ! i) \<Longrightarrow>
     \<not> (bears ''fa-caret-right'' (elements doc ! i) \<and> bears ''fa-caret-down'' (elements doc ! i))"
    using assms by (simp add: list_all_length)
  then show ?thesis
    unfolding onUnfoldAllClick_def onFoldAllClick_def Let_def header_clicks_set by blast
qed

theorem fold_unfold_disjoint_witness:
  "list_all (\<lambda>e. has_class ''o_group_header'' e \<longrightarrow>
                \<not> (bears ''fa-caret-right'' e \<and> bears ''fa-caret-down'' e))
     (elements sample_page)
   \<and> set (onUnfoldAllClick sample_page) \<inter> set (onFoldAllClick sample_page) = {}"
proof -
  have h: "list_all (\<lambda>e. has_class ''o_group_header'' e \<longrightarrow>
                \<not> (bears ''fa-caret-right'' e \<and> bears ''fa-caret-down'' e))
     (elements sample_page)"
    by (simp add: sample_page_elements sample_page_def has_class_def bears_def descendants_def
        caret_def)
  from h fold_unfold_disjoint [OF h] show ?thesis by simp
qed

text \<open>
  The two handlers on the sample page, and on a header that bears both markers
  (which both handlers click).
\<close>

lemma sample_page_clicks:
  "onUnfoldAllClick sample_page = [1] \<and> onFoldAllClick sample_page = [4]"
  by (simp add: onUnfoldAllClick_def onFoldAllClick_def querySelectorAll_def querySelector_def
      sample_page_elements sample_page_def matches_def descendants_def caret_def
      enumerate_eq_zip upt_rec)

lemma both_markers_clicked_by_both:
  "onUnfoldAllClick (Element [''o_group_header'', ''o_group_has_content'']
       [Element [''fa-caret-right''] [], Element [''fa-caret-down''] []]) = [0]
   \<and> onFoldAllClick (Element [''o_group_header'', ''o_group_has_content'']
       [Element [''fa-caret-right''] [], Element [''fa-caret-down''] []]) = [0]"
  by (simp add: onUnfoldAllClick_def onFoldAllClick_def querySelectorAll_def querySelector_def
      matches_def descendants_def)

end
